theory Spec2Isabelle
  imports Main "HOL-Library.Sublist"
begin

section \<open>Local record store: the NotesDB class of app.jsx\<close>

subsection \<open>Data\<close>

text \<open>
  Rejections of the store's promises. \<open>TypeError\<close> is what JavaScript throws when
  \<open>this.db\<close> is still \<open>null\<close>; \<open>ConstraintError\<close>, \<open>DataError\<close>, \<open>NotFoundError\<close> and
  \<open>VersionError\<close> are the DOMExceptions of IndexedDB; \<open>NoteNonTrouvee\<close> is the
  \<open>new Error('Note non trouvee')\<close> of \<open>updateNote\<close> (the spec's RecordNotFound).
\<close>

datatype error =
    TypeError
  | ConstraintError
  | DataError
  | NotFoundError
  | VersionError
  | NoteNonTrouvee

text \<open>
  The argument of \<open>addNote\<close>: the partial record \<open>{title, content, color}\<close> that
  \<open>createNote\<close> builds. \<open>note_data\<close> is that record with the two timestamps
  (\<open>noteData\<close> in \<open>addNote\<close>), and \<open>note_record\<close> is a stored record, whose \<open>id\<close>
  the object store wrote at its key path. Timestamps are the integers of
  \<open>Date.now()\<close>.
\<close>

record note_input =
  title :: string
  content :: string
  color :: string

record note_data = note_input +
  createdAt :: int
  updatedAt :: int

record note_record = note_data +
  note_id :: int

text \<open>
  The second argument of \<open>updateNote\<close>: an object that may carry any field of a note;
  \<open>None\<close> is a field the object does not have.
\<close>

record updates =
  u_id :: "int option"
  u_title :: "string option"
  u_content :: "string option"
  u_color :: "string option"
  u_createdAt :: "int option"
  u_updatedAt :: "int option"

definition no_updates :: updates where
  "no_updates = \<lparr>u_id = None, u_title = None, u_content = None, u_color = None,
     u_createdAt = None, u_updatedAt = None\<rparr>"

subsection \<open>The platform's object store\<close>

text \<open>
  An IndexedDB object store with key path \<open>id\<close>: its records in ascending order of
  \<open>id\<close> (the order \<open>getAll\<close> returns), whether it has a key generator, and the
  generator's current number. Storage faults of the platform (quota, I/O) are not
  part of the model, so the only requests that can fail are those IndexedDB itself
  refuses.
\<close>

record object_store =
  autoIncrement :: bool
  keygen :: int
  rows :: "note_record list"

record database =
  db_version :: nat
  notes_store :: "object_store option"

fun put_row :: "note_record \<Rightarrow> note_record list \<Rightarrow> note_record list" where
  "put_row v [] = [v]"
| "put_row v (r # rs) =
     (if note_id v = note_id r then v # rs
      else if note_id v < note_id r then v # r # rs
      else r # put_row v rs)"

definition os_get :: "object_store \<Rightarrow> int \<Rightarrow> note_record option" where
  "os_get os k = find (\<lambda>r. note_id r = k) (rows os)"

definition os_getAll :: "object_store \<Rightarrow> note_record list" where
  "os_getAll os = rows os"

definition max_generated_key :: int where
  "max_generated_key = 2 ^ 53"

text \<open>
  \<open>add\<close> of a value with no \<open>id\<close>: the key generator supplies the key and the store
  writes it into the value. Without a generator the request is refused (DataError);
  a generator past \<open>2^53\<close>, or a key already in use, fails with ConstraintError and
  the aborted transaction leaves the store as it was.
\<close>

definition os_add :: "object_store \<Rightarrow> note_data \<Rightarrow> error + (int \<times> object_store)" where
  "os_add os v =
     (if \<not> autoIncrement os then Inl DataError
      else if keygen os > max_generated_key then Inl ConstraintError
      else if os_get os (keygen os) \<noteq> None then Inl ConstraintError
      else
        (let k = keygen os;
             stored = \<lparr>title = title v, content = content v, color = color v,
                       createdAt = createdAt v, updatedAt = updatedAt v, note_id = k\<rparr>
         in Inr (k, os\<lparr>keygen := k + 1, rows := put_row stored (rows os)\<rparr>)))"

text \<open>
  \<open>put\<close> of a value that carries its key: the row is written or replaced, and a key
  at or beyond the generator's current number moves the generator past it.
\<close>

definition os_put :: "object_store \<Rightarrow> note_record \<Rightarrow> object_store" where
  "os_put os v =
     (let k = min (note_id v) max_generated_key;
          g = (if autoIncrement os \<and> keygen os \<le> k then k + 1 else keygen os)
      in os\<lparr>keygen := g, rows := put_row v (rows os)\<rparr>)"

definition os_delete :: "object_store \<Rightarrow> int \<Rightarrow> object_store" where
  "os_delete os k = os\<lparr>rows := filter (\<lambda>r. note_id r \<noteq> k) (rows os)\<rparr>"

subsection \<open>NotesDB\<close>

record NotesDB =
  dbName :: string
  version :: nat
  db :: "database option"

definition constructor :: NotesDB where
  "constructor = \<lparr>dbName = ''NotesFlowDB'', version = 1, db = None\<rparr>"

text \<open>
  \<open>onupgradeneeded\<close>: the object store is created only when the database has none.
\<close>

definition onupgradeneeded :: "database \<Rightarrow> database" where
  "onupgradeneeded d =
     (case notes_store d of
        None \<Rightarrow> d\<lparr>notes_store := Some \<lparr>autoIncrement = True, keygen = 1, rows = []\<rparr>\<rparr>
      | Some _ \<Rightarrow> d)"

text \<open>
  \<open>init\<close>, given what the platform holds under \<open>dbName\<close> (\<open>None\<close> on the first open).
  A database that is missing or older than \<open>version\<close> is upgraded; a newer one refuses
  the open with VersionError.
\<close>

definition init :: "NotesDB \<Rightarrow> database option \<Rightarrow> (error + unit) \<times> NotesDB" where
  "init this existing =
     (case existing of
        None \<Rightarrow>
          (Inr (), this\<lparr>db := Some (onupgradeneeded
             \<lparr>db_version = version this, notes_store = None\<rparr>)\<rparr>)
      | Some d \<Rightarrow>
          if db_version d < version this
          then (Inr (), this\<lparr>db := Some (onupgradeneeded (d\<lparr>db_version := version this\<rparr>))\<rparr>)
          else if db_version d > version this then (Inl VersionError, this)
          else (Inr (), this\<lparr>db := Some d\<rparr>))"

text \<open>
  \<open>this.db.transaction(['notes'], mode).objectStore('notes')\<close>, and the write-back of
  the store when the transaction commits.
\<close>

definition transaction :: "NotesDB \<Rightarrow> error + object_store" where
  "transaction this =
     (case db this of
        None \<Rightarrow> Inl TypeError
      | Some d \<Rightarrow> (case notes_store d of None \<Rightarrow> Inl NotFoundError | Some os \<Rightarrow> Inr os))"

definition commit :: "NotesDB \<Rightarrow> object_store \<Rightarrow> NotesDB" where
  "commit this os = this\<lparr>db := map_option (\<lambda>d. d\<lparr>notes_store := Some os\<rparr>) (db this)\<rparr>"

text \<open>
  \<open>addNote\<close>. The two \<open>Date.now()\<close> calls of \<open>noteData\<close> are the two clock readings
  \<open>now1\<close> and \<open>now2\<close>.
\<close>

definition addNote :: "NotesDB \<Rightarrow> int \<Rightarrow> int \<Rightarrow> note_input \<Rightarrow> (error + int) \<times> NotesDB" where
  "addNote this now1 now2 n =
     (case transaction this of
        Inl e \<Rightarrow> (Inl e, this)
      | Inr objectStore \<Rightarrow>
          (let noteData = \<lparr>title = title n, content = content n, color = color n,
                 createdAt = now1, updatedAt = now2\<rparr>
           in case os_add objectStore noteData of
                Inl e \<Rightarrow> (Inl e, this)
              | Inr (k, os') \<Rightarrow> (Inr k, commit this os')))"

definition getAllNotes :: "NotesDB \<Rightarrow> error + note_record list" where
  "getAllNotes this =
     (case transaction this of
        Inl e \<Rightarrow> Inl e
      | Inr objectStore \<Rightarrow> Inr (os_getAll objectStore))"

text \<open>
  The object spread \<open>{...note, ...updates, updatedAt: Date.now()}\<close>: a field of
  \<open>updates\<close> replaces the note's, and \<open>updatedAt\<close> is written last.
\<close>

definition spread :: "note_record \<Rightarrow> updates \<Rightarrow> int \<Rightarrow> note_record" where
  "spread n u now =
     \<lparr>title = (case u_title u of Some v \<Rightarrow> v | None \<Rightarrow> title n),
      content = (case u_content u of Some v \<Rightarrow> v | None \<Rightarrow> content n),
      color = (case u_color u of Some v \<Rightarrow> v | None \<Rightarrow> color n),
      createdAt = (case u_createdAt u of Some v \<Rightarrow> v | None \<Rightarrow> createdAt n),
      updatedAt = now,
      note_id = (case u_id u of Some v \<Rightarrow> v | None \<Rightarrow> note_id n)\<rparr>"

definition updateNote ::
    "NotesDB \<Rightarrow> int \<Rightarrow> int \<Rightarrow> updates \<Rightarrow> (error + note_record) \<times> NotesDB" where
  "updateNote this now ident upd =
     (case transaction this of
        Inl e \<Rightarrow> (Inl e, this)
      | Inr objectStore \<Rightarrow>
          (case os_get objectStore ident of
             Some n \<Rightarrow>
               (let updatedNote = spread n upd now
                in (Inr updatedNote, commit this (os_put objectStore updatedNote)))
           | None \<Rightarrow> (Inl NoteNonTrouvee, this)))"

definition deleteNote :: "NotesDB \<Rightarrow> int \<Rightarrow> (error + unit) \<times> NotesDB" where
  "deleteNote this ident =
     (case transaction this of
        Inl e \<Rightarrow> (Inl e, this)
      | Inr objectStore \<Rightarrow> (Inr (), commit this (os_delete objectStore ident)))"

subsection \<open>Search\<close>

text \<open>
  A JavaScript string is a sequence of UTF-16 code units. The strings of the model
  are the sequences of code units below 256, the characters of Latin-1: a \<open>char\<close>
  is its code unit, \<open>of_char c\<close> (\<open>CHR 0xC9\<close> is the capital E with acute accent, not
  a byte of an encoding). On these strings \<open>String.prototype.toLowerCase\<close> works
  unit by unit, as Unicode has it for Latin-1: the upper-case letters are the code
  units 65..90 (A to Z), 192..214 and 216..222 (the accented capitals; 215 is the
  multiplication sign), the lower-case letter of each is 32 further on, and every
  other character, the sharp s (223) and the y with diaeresis (255) among them,
  stays as it is.
\<close>

definition is_upper :: "char \<Rightarrow> bool" where
  "is_upper c =
     (let n = (of_char c :: nat)
      in (65 \<le> n \<and> n \<le> 90) \<or> (192 \<le> n \<and> n \<le> 214) \<or> (216 \<le> n \<and> n \<le> 222))"

definition lower_char :: "char \<Rightarrow> char" where
  "lower_char c = (if is_upper c then char_of (of_char c + 32 :: nat) else c)"

definition toLowerCase :: "string \<Rightarrow> string" where
  "toLowerCase s = map lower_char s"

text \<open>\<open>s.includes(t)\<close>: \<open>t\<close> occurs in \<open>s\<close> at some position.\<close>

fun str_includes :: "string \<Rightarrow> string \<Rightarrow> bool" where
  "str_includes [] t = (t = [])"
| "str_includes (c # cs) t = (prefix t (c # cs) \<or> str_includes cs t)"

definition searchNotes :: "NotesDB \<Rightarrow> string \<Rightarrow> error + note_record list" where
  "searchNotes this searchTerm =
     (case getAllNotes this of
        Inl e \<Rightarrow> Inl e
      | Inr allNotes \<Rightarrow>
          (let term = toLowerCase searchTerm
           in Inr (filter (\<lambda>n. str_includes (toLowerCase (title n)) term \<or>
                                str_includes (toLowerCase (content n)) term) allNotes)))"

subsection \<open>What the spec calls a case-insensitive substring\<close>

text \<open>
  The letters of Latin-1 that come in two cases, each upper-case letter with its
  lower-case one, written out: A to Z, and the accented capitals from the A with
  grave accent (\<open>0xC0\<close>) to the thorn (\<open>0xDE\<close>). Two characters are the same letter
  when they are equal or are the two cases of one letter; \<open>t\<close> is a case-insensitive
  substring of \<open>s\<close> when some stretch of \<open>s\<close> matches \<open>t\<close> letter by letter.
\<close>

definition letter_pairs :: "(char \<times> char) list" where
  "letter_pairs =
     zip ''ABCDEFGHIJKLMNOPQRSTUVWXYZ'' ''abcdefghijklmnopqrstuvwxyz'' @
     [
      (CHR 0xC0, CHR 0xE0), (CHR 0xC1, CHR 0xE1), (CHR 0xC2, CHR 0xE2), (CHR 0xC3, CHR 0xE3),
      (CHR 0xC4, CHR 0xE4), (CHR 0xC5, CHR 0xE5), (CHR 0xC6, CHR 0xE6), (CHR 0xC7, CHR 0xE7),
      (CHR 0xC8, CHR 0xE8), (CHR 0xC9, CHR 0xE9), (CHR 0xCA, CHR 0xEA), (CHR 0xCB, CHR 0xEB),
      (CHR 0xCC, CHR 0xEC), (CHR 0xCD, CHR 0xED), (CHR 0xCE, CHR 0xEE), (CHR 0xCF, CHR 0xEF),
      (CHR 0xD0, CHR 0xF0), (CHR 0xD1, CHR 0xF1), (CHR 0xD2, CHR 0xF2), (CHR 0xD3, CHR 0xF3),
      (CHR 0xD4, CHR 0xF4), (CHR 0xD5, CHR 0xF5), (CHR 0xD6, CHR 0xF6), (CHR 0xD8, CHR 0xF8),
      (CHR 0xD9, CHR 0xF9), (CHR 0xDA, CHR 0xFA), (CHR 0xDB, CHR 0xFB), (CHR 0xDC, CHR 0xFC),
      (CHR 0xDD, CHR 0xFD), (CHR 0xDE, CHR 0xFE)]"



text \<open>The code units of the upper-case letters, as a list.\<close>

definition upper_codes :: "nat list" where
  "upper_codes = [65..<91] @ [192..<215] @ [216..<223]"

subsection \<open>Sequences of Add and Delete\<close>

text \<open>
  A caller's sequence of \<open>addNote\<close> and \<open>deleteNote\<close> calls, each \<open>Add\<close> with its two
  clock readings; \<open>added_ids\<close> lists the ids the successful \<open>addNote\<close> calls resolve
  with, in call order.
\<close>

datatype op = Add note_input int int | Delete int

fun added_ids :: "NotesDB \<Rightarrow> op list \<Rightarrow> int list" where
  "added_ids this [] = []"
| "added_ids this (Add n now1 now2 # ops) =
     (case addNote this now1 now2 n of
        (Inr k, this') \<Rightarrow> k # added_ids this' ops
      | (Inl e, this') \<Rightarrow> added_ids this' ops)"
| "added_ids this (Delete k # ops) = added_ids (snd (deleteNote this k)) ops"

subsection \<open>The spec's example record\<close>

text \<open>
  The store after \<open>init\<close> on a fresh platform and one \<open>addNote\<close> of the record
  \<open>{title: "Grocery List", content: "milk, eggs"}\<close> at clock reading 1000.
\<close>

definition grocery :: note_record where
  "grocery = \<lparr>title = ''Grocery List'', content = ''milk, eggs'', color = ''#fef3c7'',
     createdAt = 1000, updatedAt = 1000, note_id = 1\<rparr>"

definition grocery_db :: NotesDB where
  "grocery_db = snd (addNote (snd (init constructor None)) 1000 1000
     \<lparr>title = ''Grocery List'', content = ''milk, eggs'', color = ''#fef3c7''\<rparr>)"



text \<open>
  A store with one record whose title is \<open>ECOLE\<close> with an acute accent on the
  capital E (\<open>0xC9\<close>) and whose content has the lower-case e with acute accent
  (\<open>0xE9\<close>).
\<close>

definition ecole :: note_record where
  "ecole = \<lparr>title = CHR 0xC9 # ''COLE'', content = ''rentr'' @ [CHR 0xE9] @ ''e'',
     color = ''#dbeafe'', createdAt = 1000, updatedAt = 1000, note_id = 1\<rparr>"

definition ecole_db :: NotesDB where
  "ecole_db = snd (addNote (snd (init constructor None)) 1000 1000
     \<lparr>title = CHR 0xC9 # ''COLE'', content = ''rentr'' @ [CHR 0xE9] @ ''e'',
      color = ''#dbeafe''\<rparr>)"

section \<open>Cache lifecycle manager: service-worker.js\<close>

subsection \<open>Requests, responses and the network\<close>

text \<open>
  A request as the worker reads it: \<open>request.url\<close> (an absolute URL as the platform
  serialises it, which is also the \<open>href\<close> of \<open>new URL(request.url)\<close>), its method and
  \<open>request.destination\<close>.
\<close>

record request =
  url :: string
  req_method :: string
  destination :: string

text \<open>
  The data of a response (what the network delivers and what a cache keeps), and a
  \<open>Response\<close> object, whose body can be read once: \<open>bodyUsed\<close>.
\<close>

record snapshot =
  status :: nat
  body :: string

record response = snapshot +
  bodyUsed :: bool

definition fresh :: "snapshot \<Rightarrow> response" where
  "fresh d = \<lparr>status = status d, body = body d, bodyUsed = False\<rparr>"

definition snapshot_of :: "response \<Rightarrow> snapshot" where
  "snapshot_of r = \<lparr>status = status r, body = body r\<rparr>"

text \<open>
  The network answers a request with response data, or fails (\<open>None\<close>): \<open>fetch\<close> then
  rejects with a TypeError.
\<close>

type_synonym network = "request \<Rightarrow> snapshot option"

text \<open>
  The origin of an absolute URL \<open>scheme://userinfo@host:port/...\<close>: the scheme and
  the authority without its userinfo (what precedes the last \<open>@\<close>).
\<close>

definition url_origin :: "string \<Rightarrow> string" where
  "url_origin u =
     (let scheme = takeWhile (\<lambda>c. c \<noteq> CHR '':'') u;
          rest = drop (length scheme + 3) u;
          authority =
            takeWhile (\<lambda>c. c \<noteq> CHR ''/'' \<and> c \<noteq> CHR ''?'' \<and> c \<noteq> CHR ''#'') rest;
          host = rev (takeWhile (\<lambda>c. c \<noteq> CHR ''@'') (rev authority))
      in scheme @ ''://'' @ host)"

text \<open>
  A path of the worker's own site (\<open>'/index.html'\<close>) names the URL under the worker's
  origin; an absolute URL names itself. \<open>cache.addAll\<close> and \<open>caches.match\<close> turn such a
  string into a GET request.
\<close>

definition resolve :: "string \<Rightarrow> string \<Rightarrow> string" where
  "resolve loc u = (if take 1 u = ''/'' then loc @ u else u)"

definition request_of :: "string \<Rightarrow> string \<Rightarrow> request" where
  "request_of loc u = \<lparr>url = resolve loc u, req_method = ''GET'', destination = []\<rparr>"

subsection \<open>The platform's cache storage\<close>

text \<open>
  A cache maps the URL of a GET request (taken without a fragment, which the
  platform leaves out of the comparison) to the response data stored for it; the
  cache storage lists the named caches in the order of their creation, which is
  the order \<open>caches.match\<close> searches them in.
\<close>

type_synonym cache = "string \<Rightarrow> snapshot option"

type_synonym cache_storage = "(string \<times> cache) list"

definition caches_open :: "cache_storage \<Rightarrow> string \<Rightarrow> cache_storage" where
  "caches_open cs name = (if name \<in> set (map fst cs) then cs else cs @ [(name, Map.empty)])"

fun match_all :: "cache_storage \<Rightarrow> string \<Rightarrow> snapshot option" where
  "match_all [] u = None"
| "match_all ((name, c) # cs) u = (case c u of Some d \<Rightarrow> Some d | None \<Rightarrow> match_all cs u)"

definition caches_match :: "cache_storage \<Rightarrow> request \<Rightarrow> snapshot option" where
  "caches_match cs rq = (if req_method rq = ''GET'' then match_all cs (url rq) else None)"

fun put_entry :: "cache_storage \<Rightarrow> string \<Rightarrow> string \<Rightarrow> snapshot \<Rightarrow> cache_storage" where
  "put_entry [] name u d = []"
| "put_entry ((n, c) # cs) name u d =
     (if n = name then (n, c(u \<mapsto> d)) # cs else (n, c) # put_entry cs name u d)"

text \<open>
  Response objects live in a store indexed by their allocation order. \<open>clone\<close>
  allocates a second object with the same data and throws when the body was read;
  \<open>cache.put\<close> refuses a request that is not a GET and a response whose body was
  read, and otherwise reads the body of the object it is given, which marks that
  object and no other.
\<close>

definition clone :: "response list \<Rightarrow> nat \<Rightarrow> error + (nat \<times> response list)" where
  "clone h a =
     (if a < length h then
        (if bodyUsed (h ! a) then Inl TypeError else Inr (length h, h @ [h ! a]))
      else Inl TypeError)"

definition cache_put ::
    "cache_storage \<Rightarrow> string \<Rightarrow> request \<Rightarrow> response list \<Rightarrow> nat
      \<Rightarrow> error + (cache_storage \<times> response list)" where
  "cache_put cs name rq h a =
     (if req_method rq \<noteq> ''GET'' then Inl TypeError
      else if a < length h then
        (if bodyUsed (h ! a) then Inl TypeError
         else Inr (put_entry cs name (url rq) (snapshot_of (h ! a)),
                   h[a := (h ! a)\<lparr>bodyUsed := True\<rparr>]))
      else Inl TypeError)"

text \<open>
  \<open>cache.addAll\<close>: every request is fetched; when one fetch fails, or one response
  is not ok (a status outside 200..299) or is partial (status 206), the call rejects
  with a TypeError and stores nothing, otherwise every response is stored.
\<close>

definition ok_status :: "nat \<Rightarrow> bool" where
  "ok_status n = (200 \<le> n \<and> n \<le> 299)"

definition fetched_ok :: "snapshot option \<Rightarrow> bool" where
  "fetched_ok r =
     (case r of Some d \<Rightarrow> ok_status (status d) \<and> status d \<noteq> 206 | None \<Rightarrow> False)"

fun put_all :: "cache_storage \<Rightarrow> string \<Rightarrow> (request \<times> snapshot option) list \<Rightarrow> cache_storage" where
  "put_all cs name [] = cs"
| "put_all cs name ((rq, Some d) # xs) = put_all (put_entry cs name (url rq) d) name xs"
| "put_all cs name ((rq, None) # xs) = put_all cs name xs"

subsection \<open>The worker\<close>

text \<open>
  The state the handlers act on: the cache storage of the origin, and the log of
  the requests that went to the network.
\<close>

record worker =
  caches :: cache_storage
  fetched :: "request list"

definition CACHE_NAME :: string where
  "CACHE_NAME = ''notesflow-v1''"

definition DYNAMIC_CACHE :: string where
  "DYNAMIC_CACHE = ''notesflow-dynamic-v1''"

definition STATIC_ASSETS :: "string list" where
  "STATIC_ASSETS =
     [''/'',
      ''/index.html'',
      ''/app.jsx'',
      ''/manifest.json'',
      ''https://unpkg.com/react@18/umd/react.production.min.js'',
      ''https://unpkg.com/react-dom@18/umd/react-dom.production.min.js'',
      ''https://unpkg.com/@babel/standalone/babel.min.js'']"

definition cache_addAll ::
    "network \<Rightarrow> worker \<Rightarrow> string \<Rightarrow> request list \<Rightarrow> (error + unit) \<times> worker" where
  "cache_addAll net s name rqs =
     (let s1 = s\<lparr>fetched := fetched s @ rqs\<rparr>
      in if list_all (\<lambda>rq. fetched_ok (net rq)) rqs
         then (Inr (), s1\<lparr>caches := put_all (caches s1) name (map (\<lambda>rq. (rq, net rq)) rqs)\<rparr>)
         else (Inl TypeError, s1))"

text \<open>
  The \<open>install\<close> handler. \<open>settled\<close> is how the promise given to \<open>event.waitUntil\<close>
  settles; the \<open>.catch\<close> at the end of the chain logs the error with \<open>console.error\<close>
  and returns normally.
\<close>

record install_result =
  settled :: "error + unit"
  skipWaiting :: bool
  console_error :: "error option"

definition install_handler :: "string \<Rightarrow> network \<Rightarrow> worker \<Rightarrow> install_result \<times> worker" where
  "install_handler loc net s =
     (let s1 = s\<lparr>caches := caches_open (caches s) CACHE_NAME\<rparr>
      in case cache_addAll net s1 CACHE_NAME (map (request_of loc) STATIC_ASSETS) of
           (Inr _, s2) \<Rightarrow>
             (\<lparr>settled = Inr (), skipWaiting = True, console_error = None\<rparr>, s2)
         | (Inl e, s2) \<Rightarrow>
             (\<lparr>settled = Inr (), skipWaiting = False, console_error = Some e\<rparr>, s2))"

text \<open>
  What a \<open>fetch\<close> event ends with: the handler returns without \<open>respondWith\<close> and
  the platform handles the request; or the promise given to \<open>respondWith\<close> resolves,
  with a response object or with \<open>undefined\<close> (\<open>None\<close>); or it rejects.
\<close>

datatype outcome =
    NotIntercepted
  | Responded "response option"
  | Rejected error

text \<open>
  The \<open>.catch\<close> of the network branch: a document request gets whatever
  \<open>caches.match('/index.html')\<close> finds, any other request gets the error back.
\<close>

definition offline :: "string \<Rightarrow> worker \<Rightarrow> request \<Rightarrow> error \<Rightarrow> outcome" where
  "offline loc s rq e =
     (if destination rq = ''document''
      then Responded (map_option fresh (caches_match (caches s) (request_of loc ''/index.html'')))
      else Rejected e)"

text \<open>
  The \<open>fetch\<close> handler, with \<open>loc\<close> for \<open>location.origin\<close>. On a response of status
  200 the network response is object 0 of the store, its clone is put into the
  dynamic cache (a put that rejects is not observed), and object 0 is what the
  caller gets.
\<close>

definition fetch_handler ::
    "string \<Rightarrow> network \<Rightarrow> worker \<Rightarrow> request \<Rightarrow> outcome \<times> worker" where
  "fetch_handler loc net s rq =
     (if url_origin (url rq) \<noteq> loc \<and> \<not> str_includes (url rq) ''unpkg.com''
      then (NotIntercepted, s)
      else
        (case caches_match (caches s) rq of
           Some cachedResponse \<Rightarrow> (Responded (Some (fresh cachedResponse)), s)
         | None \<Rightarrow>
             (let s1 = s\<lparr>fetched := fetched s @ [rq]\<rparr>
              in case net rq of
                   None \<Rightarrow> (offline loc s1 rq TypeError, s1)
                 | Some d \<Rightarrow>
                     (let h = [fresh d]; networkResponse = 0
                      in if status (h ! networkResponse) = 200
                         then
                           (case clone h networkResponse of
                              Inl e \<Rightarrow> (offline loc s1 rq e, s1)
                            | Inr (responseClone, h1) \<Rightarrow>
                                (let cs = caches_open (caches s1) DYNAMIC_CACHE
                                 in case cache_put cs DYNAMIC_CACHE rq h1 responseClone of
                                      Inl _ \<Rightarrow>
                                        (Responded (Some (h1 ! networkResponse)),
                                         s1\<lparr>caches := cs\<rparr>)
                                    | Inr (cs', h2) \<Rightarrow>
                                        (Responded (Some (h2 ! networkResponse)),
                                         s1\<lparr>caches := cs'\<rparr>)))
                         else (Responded (Some (h ! networkResponse)), s1)))))"

subsection \<open>Reading one cache\<close>

text \<open>
  The entry a named cache holds for a URL (what \<open>caches.open(name)\<close> followed by
  \<open>cache.match(url)\<close> finds); a name with no cache has no entries.
\<close>

definition cache_entry :: "cache_storage \<Rightarrow> string \<Rightarrow> string \<Rightarrow> snapshot option" where
  "cache_entry cs name u = (case map_of cs name of Some c \<Rightarrow> c u | None \<Rightarrow> None)"

subsection \<open>Example states, networks and requests\<close>

text \<open>
  A site at \<open>https://notes.example\<close>. \<open>static_worker\<close> has \<open>/index.html\<close> in its
  static cache, \<open>empty_worker\<close> has no cache at all. \<open>no_network\<close> fails every fetch,
  \<open>good_network\<close> answers every fetch with status 200, and \<open>babel_down\<close> fails the
  fetch of one asset of the manifest only.
\<close>

definition app_origin :: string where
  "app_origin = ''https://notes.example''"

definition no_network :: network where
  "no_network rq = None"

definition good_network :: network where
  "good_network rq = Some \<lparr>status = 200, body = ''ok''\<rparr>"

definition babel_down :: network where
  "babel_down rq =
     (if url rq = ''https://unpkg.com/@babel/standalone/babel.min.js'' then None
      else Some \<lparr>status = 200, body = ''ok''\<rparr>)"

definition empty_worker :: worker where
  "empty_worker = \<lparr>caches = [], fetched = []\<rparr>"

definition index_snapshot :: snapshot where
  "index_snapshot = \<lparr>status = 200, body = ''<!DOCTYPE html>''\<rparr>"

definition static_worker :: worker where
  "static_worker =
     \<lparr>caches = [(CACHE_NAME, [''https://notes.example/index.html'' \<mapsto> index_snapshot])],
      fetched = []\<rparr>"

definition index_request :: request where
  "index_request = \<lparr>url = ''https://notes.example/index.html'', req_method = ''GET'',
     destination = ''document''\<rparr>"

definition page_request :: request where
  "page_request = \<lparr>url = ''https://notes.example/notes'', req_method = ''GET'',
     destination = ''document''\<rparr>"

definition icon_request :: request where
  "icon_request = \<lparr>url = ''https://notes.example/icon.png'', req_method = ''GET'',
     destination = ''image''\<rparr>"

definition api_request :: request where
  "api_request = \<lparr>url = ''https://api.anthropic.com/v1/models?cdn=unpkg.com'',
     req_method = ''GET'', destination = []\<rparr>"

section \<open>Properties of the local record store\<close>

subsection \<open>Auxiliary facts\<close>

lemma find_put_row_same: "find (\<lambda>r. note_id r = note_id v) (put_row v rs) = Some v"
  by (induction rs) auto

lemma find_put_row_other:
  "k \<noteq> note_id v \<Longrightarrow>
   find (\<lambda>r. note_id r = k) (put_row v rs) = find (\<lambda>r. note_id r = k) rs"
  by (induction rs) auto

lemma transaction_commit:
  "transaction this = Inr os \<Longrightarrow> transaction (commit this os') = Inr os'"
  by (auto simp: transaction_def commit_def split: option.splits)

lemma grocery_db_eq:
  "grocery_db = \<lparr>dbName = ''NotesFlowDB'', version = 1,
     db = Some \<lparr>db_version = 1,
       notes_store = Some \<lparr>autoIncrement = True, keygen = 2, rows = [grocery]\<rparr>\<rparr>\<rparr>"
  by (simp add: grocery_db_def grocery_def init_def constructor_def onupgradeneeded_def
      addNote_def transaction_def os_add_def os_get_def commit_def max_generated_key_def)

lemma getAllNotes_grocery_db: "getAllNotes grocery_db = Inr [grocery]"
  by (simp add: grocery_db_eq getAllNotes_def transaction_def os_getAll_def)

lemma getAllNotes_ecole_db: "getAllNotes ecole_db = Inr [ecole]"
  by (simp add: ecole_db_def ecole_def init_def constructor_def onupgradeneeded_def
      addNote_def transaction_def os_add_def os_get_def commit_def max_generated_key_def
      getAllNotes_def os_getAll_def)

lemma transaction_grocery_db:
  "transaction grocery_db = Inr \<lparr>autoIncrement = True, keygen = 2, rows = [grocery]\<rparr>"
  by (simp add: grocery_db_eq transaction_def)

subsection \<open>Update of an absent id\<close>

text \<open>
  C1. When \<open>getAllNotes\<close> returns the collection and no record of it has the id,
  \<open>updateNote\<close> rejects with the error of \<open>new Error('Note non trouvee')\<close> (the spec's
  RecordNotFound) and the store is exactly what it was: no record is created and the
  collection is unchanged.
\<close>

theorem updateNote_absent:
  assumes "getAllNotes this = Inr allNotes" and "ident \<notin> note_id ` set allNotes"
  shows "updateNote this now ident upd = (Inl NoteNonTrouvee, this)"
proof -
  from assms(1) obtain os where os: "transaction this = Inr os" and all: "allNotes = rows os"
    by (auto simp: getAllNotes_def os_getAll_def split: sum.splits)
  from assms(2) all have "os_get os ident = None"
    by (auto simp: os_get_def find_None_iff)
  with os show ?thesis by (simp add: updateNote_def)
qed

theorem updateNote_absent_witness:
  "getAllNotes grocery_db = Inr [grocery] \<and> 7 \<notin> note_id ` set [grocery] \<and>
   updateNote grocery_db 2000 7 (no_updates\<lparr>u_title := Some ''x''\<rparr>)
     = (Inl NoteNonTrouvee, grocery_db)"
proof -
  have h1: "getAllNotes grocery_db = Inr [grocery]" by (rule getAllNotes_grocery_db)
  have h2: "7 \<notin> note_id ` set [grocery]" by (simp add: grocery_def)
  from updateNote_absent [OF h1 h2] h1 h2 show ?thesis by simp
qed

subsection \<open>Search\<close>

lemma str_includes_Nil: "str_includes s []"
  by (cases s) simp_all



text \<open>
  The written-out pairs are the upper-case letters of \<open>is_upper\<close>, each with the
  character \<open>lower_char\<close> gives for it.
\<close>

lemma letter_pairs_codes:
  "map (\<lambda>(u, l). (of_char u :: nat, of_char l :: nat)) letter_pairs
     = map (\<lambda>n. (n, n + 32)) upper_codes"
  by (simp add: letter_pairs_def upper_codes_def)

lemma letter_pairs_eq:
  "letter_pairs = map (\<lambda>n. (char_of n, char_of (n + 32))) upper_codes"
proof -
  have "letter_pairs = map (\<lambda>(a, b). (char_of a, char_of b))
      (map (\<lambda>(u, l). (of_char u :: nat, of_char l :: nat)) letter_pairs)"
    by (simp add: case_prod_unfold comp_def)
  also have "\<dots> = map (\<lambda>n. (char_of n, char_of (n + 32))) upper_codes"
    unfolding letter_pairs_codes by simp
  finally show ?thesis .
qed

lemma set_upper_codes: "set upper_codes = {65..<91} \<union> {192..<215} \<union> {216..<223}"
  unfolding upper_codes_def by (simp only: set_append set_upt Un_assoc)

lemma upper_codes_small: "n \<in> set upper_codes \<Longrightarrow> n < 256"
  unfolding set_upper_codes by auto

lemma is_upper_iff: "is_upper c \<longleftrightarrow> of_char c \<in> set upper_codes"
  unfolding set_upper_codes is_upper_def Let_def by auto

lemma map_of_letter_pairs:
  "map_of letter_pairs c = (if is_upper c then Some (lower_char c) else None)"
proof -
  have d: "distinct (map fst letter_pairs)" by (simp add: letter_pairs_def)
  show ?thesis
  proof (cases "is_upper c")
    case True
    then have "of_char c \<in> set upper_codes" by (simp add: is_upper_iff)
    then have "(char_of (of_char c :: nat), char_of (of_char c + 32 :: nat)) \<in> set letter_pairs"
      unfolding letter_pairs_eq by force
    then have "(c, lower_char c) \<in> set letter_pairs"
      using True by (simp add: lower_char_def)
    with d True show ?thesis by simp
  next
    case False
    have "c \<notin> fst ` set letter_pairs"
    proof
      assume "c \<in> fst ` set letter_pairs"
      then obtain n where n: "n \<in> set upper_codes" and c: "c = char_of n"
        unfolding letter_pairs_eq by auto
      from upper_codes_small [OF n] c have "of_char c = n" by simp
      with n False show False by (simp add: is_upper_iff)
    qed
    with False show ?thesis by (simp add: map_of_eq_None_iff)
  qed
qed

lemma lower_char_table:
  "lower_char c = (case map_of letter_pairs c of Some l \<Rightarrow> l | None \<Rightarrow> c)"
  by (simp add: map_of_letter_pairs lower_char_def)







text \<open>
  The spec's example: the record is found by "grocery", "EGGS" and "list", and not
  by "bread".
\<close>

lemma spec_search_example:
  "searchNotes grocery_db ''grocery'' = Inr [grocery]"
  "searchNotes grocery_db ''EGGS'' = Inr [grocery]"
  "searchNotes grocery_db ''list'' = Inr [grocery]"
  "searchNotes grocery_db ''bread'' = Inr []"
  by (simp_all add: searchNotes_def getAllNotes_grocery_db toLowerCase_def lower_char_table
      letter_pairs_def grocery_def)

text \<open>
  Accented letters: the record titled \<open>ECOLE\<close> with an accented capital E is found
  by the lower-case accented e and by a term in the other case, and the
  multiplication sign (\<open>0xD7\<close>) is not a letter.
\<close>

lemma latin1_search_example:
  "searchNotes ecole_db [CHR 0xE9] = Inr [ecole]"
  "searchNotes ecole_db (CHR 0xE9 # ''cole'') = Inr [ecole]"
  "searchNotes ecole_db (''RENTR'' @ [CHR 0xC9]) = Inr [ecole]"
  "searchNotes ecole_db [CHR 0xD7] = Inr []"
  by (simp_all add: searchNotes_def getAllNotes_ecole_db toLowerCase_def lower_char_table
      letter_pairs_def ecole_def)

text \<open>
  C10. The search for the empty string returns what \<open>getAllNotes\<close> returns: every
  record, since every string contains the empty one.
\<close>

theorem searchNotes_empty: "searchNotes this [] = getAllNotes this"
  by (simp add: searchNotes_def toLowerCase_def str_includes_Nil split: sum.splits)

subsection \<open>Update of a present id\<close>

text \<open>
  C3, as the code has it. \<open>updateNote\<close> spreads \<open>updates\<close> over the record before it
  stamps \<open>updatedAt\<close>, so a field \<open>id\<close> or \<open>createdAt\<close> in \<open>updates\<close> replaces the
  record's, and the new \<open>updatedAt\<close> is the clock reading whatever the old one was.
  At the record of \<open>grocery_db\<close>: \<open>{createdAt: 5}\<close> at clock reading 500 leaves the
  record with \<open>createdAt = 5\<close> and \<open>updatedAt = 500\<close>, both below their former 1000;
  \<open>{id: 9}\<close> resolves with a record of id 9 and writes it beside record 1.
\<close>

theorem updateNote_overwrites_counterexample:
  "getAllNotes grocery_db = Inr [grocery] \<and>
   createdAt grocery = 1000 \<and> updatedAt grocery = 1000 \<and> note_id grocery = 1 \<and>
   fst (updateNote grocery_db 500 1 (no_updates\<lparr>u_createdAt := Some 5\<rparr>)) =
     Inr (grocery\<lparr>createdAt := 5, updatedAt := 500\<rparr>) \<and>
   getAllNotes (snd (updateNote grocery_db 500 1 (no_updates\<lparr>u_createdAt := Some 5\<rparr>))) =
     Inr [grocery\<lparr>createdAt := 5, updatedAt := 500\<rparr>] \<and>
   fst (updateNote grocery_db 2000 1 (no_updates\<lparr>u_id := Some 9\<rparr>)) =
     Inr (grocery\<lparr>updatedAt := 2000, note_id := 9\<rparr>) \<and>
   getAllNotes (snd (updateNote grocery_db 2000 1 (no_updates\<lparr>u_id := Some 9\<rparr>))) =
     Inr [grocery, grocery\<lparr>updatedAt := 2000, note_id := 9\<rparr>]"
  by (simp add: updateNote_def getAllNotes_def os_getAll_def transaction_grocery_db
      transaction_commit os_get_def os_put_def spread_def Let_def
      no_updates_def grocery_def max_generated_key_def)

text \<open>
  C3, amended. For a record present in the store and changes that carry neither
  \<open>id\<close> nor \<open>createdAt\<close>, whatever the clock reads, \<open>updateNote\<close> resolves with the
  merged record and stores it under the same id; its \<open>id\<close> and \<open>createdAt\<close> are the
  old ones and its \<open>updatedAt\<close> is the clock reading of the update. That reading is
  at least the old \<open>updatedAt\<close> when the clock has not gone back behind it.
\<close>

theorem updateNote_keeps:
  assumes "transaction this = Inr os" and "os_get os ident = Some n"
    and "u_id upd = None" and "u_createdAt upd = None"
  shows "\<exists>n' this' os'. updateNote this now ident upd = (Inr n', this') \<and>
           transaction this' = Inr os' \<and> os_get os' ident = Some n' \<and>
           note_id n' = note_id n \<and> createdAt n' = createdAt n \<and>
           updatedAt n' = now \<and> (updatedAt n \<le> now \<longrightarrow> updatedAt n \<le> updatedAt n')"
proof -
  let ?n' = "spread n upd now"
  from assms(2) have id: "note_id n = ident"
    by (auto simp: os_get_def find_Some_iff)
  have n': "note_id ?n' = ident" "createdAt ?n' = createdAt n" "updatedAt ?n' = now"
    using assms(3,4) id by (simp_all add: spread_def)
  have u: "updateNote this now ident upd = (Inr ?n', commit this (os_put os ?n'))"
    using assms(1,2) by (simp add: updateNote_def Let_def)
  have t: "transaction (commit this (os_put os ?n')) = Inr (os_put os ?n')"
    by (rule transaction_commit [OF assms(1)])
  have g: "os_get (os_put os ?n') ident = Some ?n'"
    using find_put_row_same [of ?n' "rows os"] n'(1) by (simp add: os_get_def os_put_def Let_def)
  from u t g n' id show ?thesis by auto
qed

theorem updateNote_keeps_witness:
  "transaction grocery_db = Inr \<lparr>autoIncrement = True, keygen = 2, rows = [grocery]\<rparr> \<and>
   os_get \<lparr>autoIncrement = True, keygen = 2, rows = [grocery]\<rparr> 1 = Some grocery \<and>
   u_id (no_updates\<lparr>u_title := Some ''Shopping''\<rparr>) = None \<and>
   u_createdAt (no_updates\<lparr>u_title := Some ''Shopping''\<rparr>) = None \<and>
   updatedAt grocery \<le> 2000 \<and>
   (\<exists>n' this' os'.
      updateNote grocery_db 2000 1 (no_updates\<lparr>u_title := Some ''Shopping''\<rparr>) = (Inr n', this') \<and>
      transaction this' = Inr os' \<and> os_get os' 1 = Some n' \<and>
      note_id n' = note_id grocery \<and> createdAt n' = createdAt grocery \<and>
      updatedAt n' = 2000 \<and> updatedAt grocery \<le> updatedAt n')"
proof -
  let ?os = "\<lparr>autoIncrement = True, keygen = 2, rows = [grocery]\<rparr>"
  let ?upd = "no_updates\<lparr>u_title := Some ''Shopping''\<rparr>"
  have h1: "transaction grocery_db = Inr ?os" by (rule transaction_grocery_db)
  have h2: "os_get ?os 1 = Some grocery" by (simp add: os_get_def grocery_def)
  have h3: "u_id ?upd = None" by (simp add: no_updates_def)
  have h4: "u_createdAt ?upd = None" by (simp add: no_updates_def)
  have h5: "updatedAt grocery \<le> 2000" by (simp add: grocery_def)
  from updateNote_keeps [OF h1 h2 h3 h4, of 2000] h1 h2 h3 h4 h5 show ?thesis by simp
qed

subsection \<open>Ids assigned by Add\<close>

lemma addNote_Inr:
  assumes "addNote this now1 now2 n = (Inr k, this')"
  shows "\<exists>os os'. transaction this = Inr os \<and> k = keygen os \<and>
           transaction this' = Inr os' \<and> keygen os' = keygen os + 1"
proof -
  from assms obtain os where os: "transaction this = Inr os"
    by (cases "transaction this") (auto simp: addNote_def)
  let ?d = "\<lparr>title = title n, content = content n, color = color n,
                 createdAt = now1, updatedAt = now2\<rparr>"
  from assms os obtain os' where a: "os_add os ?d = Inr (k, os')" and t: "this' = commit this os'"
    by (auto simp: addNote_def Let_def split: sum.splits)
  from a have "k = keygen os" and "keygen os' = keygen os + 1"
    by (auto simp: os_add_def Let_def split: if_splits)
  with os t transaction_commit [OF os] show ?thesis by auto
qed

lemma addNote_Inl: "addNote this now1 now2 n = (Inl e, this') \<Longrightarrow> this' = this"
  by (auto simp: addNote_def Let_def split: sum.splits)

lemma deleteNote_Inr:
  "transaction this = Inr os \<Longrightarrow>
   transaction (snd (deleteNote this k)) = Inr (os_delete os k)"
  by (simp add: deleteNote_def transaction_commit)

lemma deleteNote_Inl: "transaction this = Inl e \<Longrightarrow> snd (deleteNote this k) = this"
  by (simp add: deleteNote_def)

lemma keygen_os_delete: "keygen (os_delete os k) = keygen os"
  by (simp add: os_delete_def)

lemma added_ids_closed: "transaction this = Inl e \<Longrightarrow> added_ids this ops = []"
proof (induction ops arbitrary: this)
  case Nil
  then show ?case by simp
next
  case (Cons a ops)
  show ?case
  proof (cases a)
    case (Add n now1 now2)
    from Cons.prems have "addNote this now1 now2 n = (Inl e, this)"
      by (simp add: addNote_def)
    with Add Cons show ?thesis by simp
  next
    case (Delete k)
    with Cons deleteNote_Inl [OF Cons.prems] show ?thesis by simp
  qed
qed

lemma added_ids_lower_bound:
  "transaction this = Inr os \<Longrightarrow> k \<in> set (added_ids this ops) \<Longrightarrow> keygen os \<le> k"
proof (induction ops arbitrary: this os)
  case Nil
  then show ?case by simp
next
  case (Cons a ops)
  show ?case
  proof (cases a)
    case (Add n now1 now2)
    obtain r this' where r: "addNote this now1 now2 n = (r, this')" by (cases "addNote this now1 now2 n")
    show ?thesis
    proof (cases r)
      case (Inl e)
      with r have "this' = this" by (auto dest: addNote_Inl)
      with Cons Add r Inl show ?thesis by auto
    next
      case (Inr j)
      with r have "addNote this now1 now2 n = (Inr j, this')" by simp
      from addNote_Inr [OF this] obtain os0 os' where "transaction this = Inr os0"
        "j = keygen os0" "transaction this' = Inr os'" "keygen os' = keygen os0 + 1" by blast
      with Cons.prems(1) have j: "j = keygen os" and t': "transaction this' = Inr os'"
        and g: "keygen os' = keygen os + 1" by auto
      from Cons.prems(2) Add r Inr have "k = j \<or> k \<in> set (added_ids this' ops)" by simp
      then show ?thesis
      proof
        assume "k = j" with j show ?thesis by simp
      next
        assume "k \<in> set (added_ids this' ops)"
        from Cons.IH [OF t' this] g show ?thesis by simp
      qed
    qed
  next
    case (Delete d)
    from Cons.prems(2) Delete have "k \<in> set (added_ids (snd (deleteNote this d)) ops)" by simp
    from Cons.IH [OF deleteNote_Inr [OF Cons.prems(1)] this] show ?thesis
      by (simp add: keygen_os_delete)
  qed
qed

text \<open>
  The ids of a sequence are also new to the store it starts from, when that store
  is as the key generator leaves it (every id below the generator's number), and an
  \<open>addNote\<close> on such a store resolves with the generator's number.
\<close>

lemma added_ids_fresh:
  assumes "transaction this = Inr os" and "\<forall>r \<in> set (rows os). note_id r < keygen os"
  shows "set (added_ids this ops) \<inter> note_id ` set (rows os) = {}"
  using added_ids_lower_bound [OF assms(1)] assms(2) by fastforce

lemma addNote_resolves:
  assumes "transaction this = Inr os" and "autoIncrement os"
    and "keygen os \<le> max_generated_key"
    and "\<forall>r \<in> set (rows os). note_id r < keygen os"
  shows "fst (addNote this now1 now2 n) = Inr (keygen os)"
proof -
  from assms(4) have "os_get os (keygen os) = None"
    by (auto simp: os_get_def find_None_iff)
  with assms(1-3) show ?thesis
    by (simp add: addNote_def os_add_def Let_def)
qed

text \<open>
  C2. In every sequence of \<open>addNote\<close> and \<open>deleteNote\<close> calls, from any state of the
  store, the ids the \<open>addNote\<close> calls resolve with are pairwise distinct: an id that
  was assigned is never assigned again, whatever was deleted in between.
\<close>

theorem added_ids_distinct: "distinct (added_ids this ops)"
proof (induction ops arbitrary: this)
  case Nil
  then show ?case by simp
next
  case (Cons a ops)
  show ?case
  proof (cases a)
    case (Add n now1 now2)
    obtain r this' where r: "addNote this now1 now2 n = (r, this')" by (cases "addNote this now1 now2 n")
    show ?thesis
    proof (cases r)
      case (Inl e)
      with Cons Add r show ?thesis by simp
    next
      case (Inr j)
      with r have "addNote this now1 now2 n = (Inr j, this')" by simp
      from addNote_Inr [OF this] obtain os os' :: object_store where "j = keygen os"
        "transaction this' = Inr os'" "keygen os' = keygen os + 1" by blast
      with added_ids_lower_bound [of this' os' j ops] have "j \<notin> set (added_ids this' ops)"
        by auto
      with Cons Add r Inr show ?thesis by simp
    qed
  next
    case (Delete d)
    with Cons show ?thesis by simp
  qed
qed

text \<open>
  The spec's scenario: Add, Add, Delete(1), Add on a fresh store assigns 1, 2, 3.
\<close>

lemma spec_add_delete_scenario:
  "added_ids (snd (init constructor None))
     [Add \<lparr>title = ''A'', content = ''x'', color = []\<rparr> 10 10,
      Add \<lparr>title = ''B'', content = ''y'', color = []\<rparr> 20 20,
      Delete 1,
      Add \<lparr>title = ''C'', content = ''z'', color = []\<rparr> 30 30] = [1, 2, 3]"
  by (simp add: init_def constructor_def onupgradeneeded_def addNote_def deleteNote_def
      transaction_def os_add_def os_get_def os_delete_def commit_def max_generated_key_def)

section \<open>Properties of the cache lifecycle manager\<close>

subsection \<open>Auxiliary facts\<close>

lemma match_all_present:
  "(name, c) \<in> set cs \<Longrightarrow> c u = Some d0 \<Longrightarrow>
   \<exists>n' c' d. (n', c') \<in> set cs \<and> c' u = Some d \<and> match_all cs u = Some d"
proof (induction cs)
  case Nil
  then show ?case by simp
next
  case (Cons p cs)
  obtain n1 c1 where p: "p = (n1, c1)" by (cases p)
  show ?case
  proof (cases "c1 u")
    case (Some d1)
    with p have "(n1, c1) \<in> set (p # cs) \<and> c1 u = Some d1 \<and> match_all (p # cs) u = Some d1"
      by simp
    then show ?thesis by blast
  next
    case None
    with Cons.prems p have "(name, c) \<in> set cs" by auto
    from Cons.IH [OF this Cons.prems(2)] obtain n' c' d where
      "(n', c') \<in> set cs" "c' u = Some d" "match_all cs u = Some d" by blast
    with None p have "(n', c') \<in> set (p # cs) \<and> c' u = Some d \<and> match_all (p # cs) u = Some d"
      by simp
    then show ?thesis by blast
  qed
qed

lemma cache_entry_open: "cache_entry (caches_open cs n) name u = cache_entry cs name u"
proof (cases "map_of cs name")
  case None
  then show ?thesis
    by (auto simp: cache_entry_def caches_open_def map_add_def split: option.splits)
next
  case (Some c)
  then show ?thesis
    by (simp add: cache_entry_def caches_open_def map_add_def)
qed

lemma cache_entry_put:
  "cache_entry (put_entry cs n u d) name v =
     (if name = n \<and> v = u \<and> n \<in> fst ` set cs then Some d else cache_entry cs name v)"
proof -
  have m: "map_of (put_entry cs n u d) name =
      (if name = n then map_option (\<lambda>c. c(u \<mapsto> d)) (map_of cs n) else map_of cs name)"
    by (induction cs) (auto simp: fun_upd_def cong: if_cong)
  show ?thesis
  proof (cases "map_of cs n")
    case None
    then have "n \<notin> fst ` set cs" by (simp add: map_of_eq_None_iff)
    with None m show ?thesis by (simp add: cache_entry_def)
  next
    case (Some c)
    then have "n \<in> fst ` set cs" by (auto dest: map_of_SomeD intro: rev_image_eqI)
    with Some m show ?thesis by (simp add: cache_entry_def)
  qed
qed

lemma snapshot_of_fresh: "snapshot_of (fresh d) = d"
  by (simp add: snapshot_of_def fresh_def)

lemma bodyUsed_fresh: "\<not> bodyUsed (fresh d)"
  by (simp add: fresh_def)

lemma origin_index: "url_origin (url index_request) = app_origin"
  by (simp add: url_origin_def index_request_def app_origin_def)

lemma origin_page: "url_origin (url page_request) = app_origin"
  by (simp add: url_origin_def page_request_def app_origin_def)

lemma origin_icon: "url_origin (url icon_request) = app_origin"
  by (simp add: url_origin_def icon_request_def app_origin_def)

lemma origin_api: "url_origin (url api_request) = ''https://api.anthropic.com''"
  by (simp add: url_origin_def api_request_def)

lemma api_includes: "str_includes (url api_request) ''unpkg.com''"
  by (simp add: api_request_def)

lemma api_method: "req_method api_request = ''GET''"
  by (simp add: api_request_def)

lemma match_static_index:
  "caches_match (caches static_worker) (request_of app_origin ''/index.html'') = Some index_snapshot"
  by (simp add: caches_match_def static_worker_def request_of_def resolve_def app_origin_def)

lemma match_static_page: "caches_match (caches static_worker) page_request = None"
  by (simp add: caches_match_def static_worker_def page_request_def)

lemma match_static_icon: "caches_match (caches static_worker) icon_request = None"
  by (simp add: caches_match_def static_worker_def icon_request_def)

lemma page_fields:
  "req_method page_request = ''GET''" "destination page_request = ''document''"
  by (simp_all add: page_request_def)

subsection \<open>Which requests the handler takes\<close>

text \<open>
  The handler leaves a request to the platform, and the worker as it was, when the
  origin of the request is not the worker's and its URL has no \<open>unpkg.com\<close> in it.
\<close>

lemma fetch_handler_gate:
  "url_origin (url rq) \<noteq> loc \<Longrightarrow> \<not> str_includes (url rq) ''unpkg.com'' \<Longrightarrow>
   fetch_handler loc net s rq = (NotIntercepted, s)"
  by (simp add: fetch_handler_def)

text \<open>
  C8, at a request the code takes although the claim excludes it. The test for the
  allowed external site is \<open>url.href.includes('unpkg.com')\<close>, a test of the whole URL:
  a GET for \<open>https://api.anthropic.com/v1/models?cdn=unpkg.com\<close>, whose origin is
  neither the site's nor \<open>https://unpkg.com\<close>, is looked up in the caches, fetched,
  answered by the handler and stored in the dynamic cache.
\<close>

theorem api_request_intercepted:
  "url_origin (url api_request) = ''https://api.anthropic.com'' \<and>
   url_origin (url api_request) \<noteq> app_origin \<and>
   url_origin (url api_request) \<noteq> ''https://unpkg.com'' \<and>
   fetch_handler app_origin good_network empty_worker api_request =
     (Responded (Some \<lparr>status = 200, body = ''ok'', bodyUsed = False\<rparr>),
      \<lparr>caches = [(DYNAMIC_CACHE, [url api_request \<mapsto> \<lparr>status = 200, body = ''ok''\<rparr>])],
       fetched = [api_request]\<rparr>)"
  by (simp add: origin_api api_includes api_method app_origin_def fetch_handler_def caches_match_def
      empty_worker_def good_network_def fresh_def clone_def cache_put_def caches_open_def
      snapshot_of_def Let_def)

subsection \<open>Cache hits\<close>

text \<open>
  C6. A GET request the handler takes (own origin, or a URL with \<open>unpkg.com\<close>) whose
  URL has an entry in some cache of the storage, the static or the dynamic one, is
  answered with a stored snapshot for that URL and the worker is left exactly as it
  was: nothing is added to the log of network fetches. The same request again, on
  the state the first one left and whatever the network would answer, gets the same
  snapshot and again leaves the worker unchanged. (The caches hold the responses of
  GET requests only, so a request identity in a cache is a GET.)
\<close>

theorem cache_hit:
  assumes "url_origin (url rq) = loc \<or> str_includes (url rq) ''unpkg.com''"
    and "req_method rq = ''GET''"
    and "(name, c) \<in> set (caches s)" and "c (url rq) = Some d0"
  shows "\<exists>n' c' d. (n', c') \<in> set (caches s) \<and> c' (url rq) = Some d \<and>
           fetch_handler loc net s rq = (Responded (Some (fresh d)), s) \<and>
           fetched (snd (fetch_handler loc net s rq)) = fetched s \<and>
           fetch_handler loc net' (snd (fetch_handler loc net s rq)) rq
             = (Responded (Some (fresh d)), s)"
proof -
  from match_all_present [OF assms(3,4)] obtain n' c' d where
    p: "(n', c') \<in> set (caches s)" "c' (url rq) = Some d" and m: "match_all (caches s) (url rq) = Some d"
    by blast
  from m assms(2) have cm: "caches_match (caches s) rq = Some d"
    by (simp add: caches_match_def)
  have "fetch_handler l n s rq = (Responded (Some (fresh d)), s)"
    if "url_origin (url rq) = l \<or> str_includes (url rq) ''unpkg.com''" for l n
    using that cm by (auto simp: fetch_handler_def)
  with assms(1) p show ?thesis by auto
qed

theorem cache_hit_witness:
  "(url_origin (url index_request) = app_origin \<or>
      str_includes (url index_request) ''unpkg.com'') \<and>
   req_method index_request = ''GET'' \<and>
   (CACHE_NAME, [''https://notes.example/index.html'' \<mapsto> index_snapshot])
     \<in> set (caches static_worker) \<and>
   [''https://notes.example/index.html'' \<mapsto> index_snapshot] (url index_request)
     = Some index_snapshot \<and>
   fetch_handler app_origin no_network static_worker index_request
     = (Responded (Some (fresh index_snapshot)), static_worker) \<and>
   fetch_handler app_origin good_network
       (snd (fetch_handler app_origin no_network static_worker index_request)) index_request
     = (Responded (Some (fresh index_snapshot)), static_worker)"
proof -
  let ?c = "[''https://notes.example/index.html'' \<mapsto> index_snapshot]"
  have h1: "url_origin (url index_request) = app_origin \<or>
      str_includes (url index_request) ''unpkg.com''"
    by (simp add: origin_index)
  have h2: "req_method index_request = ''GET''" by (simp add: index_request_def)
  have h3: "(CACHE_NAME, ?c) \<in> set (caches static_worker)" by (simp add: static_worker_def)
  have h4: "?c (url index_request) = Some index_snapshot" by (simp add: index_request_def)
  from cache_hit [OF h1 h2 h3 h4, of no_network good_network]
  obtain n' c' d where m: "(n', c') \<in> set (caches static_worker)"
    and e: "c' (url index_request) = Some d"
    and r: "fetch_handler app_origin no_network static_worker index_request
              = (Responded (Some (fresh d)), static_worker)"
           "fetch_handler app_origin good_network
              (snd (fetch_handler app_origin no_network static_worker index_request)) index_request
              = (Responded (Some (fresh d)), static_worker)"
    by blast
  from m have "c' = ?c" by (simp add: static_worker_def)
  with e h4 have "d = index_snapshot" by simp
  with r h1 h2 h3 h4 show ?thesis by simp
qed

subsection \<open>Responses from the network\<close>

text \<open>
  The clone is a second object: the put that reads its body leaves the object it
  was cloned from as it was, and stores that object's data.
\<close>

lemma clone_put_leaves_original:
  assumes "clone h a = Inr (b, h1)" and "cache_put cs name rq h1 b = Inr (cs', h2)"
  shows "b \<noteq> a \<and> h2 ! a = h ! a \<and> bodyUsed (h2 ! b) \<and>
         cs' = put_entry cs name (url rq) (snapshot_of (h ! a))"
proof -
  from assms(1) have a: "a < length h" "b = length h" "h1 = h @ [h ! a]"
    by (auto simp: clone_def split: if_splits)
  with assms(2) have "cs' = put_entry cs name (url rq) (snapshot_of (h ! a))"
    and "h2 = h1[b := (h1 ! b)\<lparr>bodyUsed := True\<rparr>]"
    by (auto simp: cache_put_def split: if_splits)
  with a show ?thesis by (auto simp: nth_append)
qed

text \<open>
  C9. For a request the handler takes, that no cache answers and that the network
  answers with data \<open>d\<close>: the caller gets a response object with the data of \<open>d\<close> whose
  body is unread (the body the put consumed is the clone's); a response whose status
  is not a successful one (200..299) leaves the cache storage as it was; and any
  cache entry that differs after the request is the entry of the dynamic cache for
  this request's URL, holds the data \<open>d\<close>, and \<open>d\<close> has a successful status. (The
  code stores on status 200 and for GET requests.)
\<close>

theorem network_copy:
  assumes "url_origin (url rq) = loc \<or> str_includes (url rq) ''unpkg.com''"
    and "caches_match (caches s) rq = None" and "net rq = Some d"
  shows "fst (fetch_handler loc net s rq) = Responded (Some (fresh d)) \<and>
         fetched (snd (fetch_handler loc net s rq)) = fetched s @ [rq] \<and>
         (\<not> ok_status (status d) \<longrightarrow> caches (snd (fetch_handler loc net s rq)) = caches s) \<and>
         (cache_entry (caches (snd (fetch_handler loc net s rq))) name u
            \<noteq> cache_entry (caches s) name u \<longrightarrow>
          ok_status (status d) \<and> name = DYNAMIC_CACHE \<and> u = url rq \<and>
          cache_entry (caches (snd (fetch_handler loc net s rq))) name u = Some d)"
proof (cases "status d = 200")
  case False
  with assms have "fetch_handler loc net s rq
      = (Responded (Some (fresh d)), s\<lparr>fetched := fetched s @ [rq]\<rparr>)"
    by (auto simp: fetch_handler_def fresh_def Let_def)
  then show ?thesis by simp
next
  case True
  let ?cs = "caches_open (caches s) DYNAMIC_CACHE"
  let ?s1 = "s\<lparr>fetched := fetched s @ [rq]\<rparr>"
  have cl: "clone [fresh d] 0 = Inr (1, [fresh d, fresh d])"
    by (simp add: clone_def fresh_def)
  have ok: "ok_status (status d)" using True by (simp add: ok_status_def)
  show ?thesis
  proof (cases "req_method rq = ''GET''")
    case False
    then have "cache_put ?cs DYNAMIC_CACHE rq [fresh d, fresh d] 1 = Inl TypeError"
      by (simp add: cache_put_def)
    with assms True cl have "fetch_handler loc net s rq
        = (Responded (Some (fresh d)), ?s1\<lparr>caches := ?cs\<rparr>)"
      by (auto simp: fetch_handler_def Let_def fresh_def)
    with ok show ?thesis by (simp add: cache_entry_open)
  next
    case get: True
    then have "cache_put ?cs DYNAMIC_CACHE rq [fresh d, fresh d] 1
        = Inr (put_entry ?cs DYNAMIC_CACHE (url rq) d, [fresh d, (fresh d)\<lparr>bodyUsed := True\<rparr>])"
      by (simp add: cache_put_def snapshot_of_fresh bodyUsed_fresh)
    with assms True cl have "fetch_handler loc net s rq
        = (Responded (Some (fresh d)),
           ?s1\<lparr>caches := put_entry ?cs DYNAMIC_CACHE (url rq) d\<rparr>)"
      by (auto simp: fetch_handler_def Let_def fresh_def)
    with ok show ?thesis by (simp add: cache_entry_put cache_entry_open)
  qed
qed

theorem network_copy_witness:
  "(url_origin (url icon_request) = app_origin \<or> str_includes (url icon_request) ''unpkg.com'') \<and>
   caches_match (caches static_worker) icon_request = None \<and>
   good_network icon_request = Some \<lparr>status = 200, body = ''ok''\<rparr> \<and>
   fst (fetch_handler app_origin good_network static_worker icon_request)
     = Responded (Some \<lparr>status = 200, body = ''ok'', bodyUsed = False\<rparr>) \<and>
   fetched (snd (fetch_handler app_origin good_network static_worker icon_request))
     = [icon_request] \<and>
   cache_entry (caches (snd (fetch_handler app_origin good_network static_worker icon_request)))
     DYNAMIC_CACHE (url icon_request) = Some \<lparr>status = 200, body = ''ok''\<rparr> \<and>
   cache_entry (caches static_worker) DYNAMIC_CACHE (url icon_request) = None"
proof -
  let ?d = "\<lparr>status = 200, body = ''ok''\<rparr>"
  let ?s' = "snd (fetch_handler app_origin good_network static_worker icon_request)"
  have h1: "url_origin (url icon_request) = app_origin \<or>
      str_includes (url icon_request) ''unpkg.com''"
    by (simp add: origin_icon)
  have h3: "good_network icon_request = Some ?d" by (simp add: good_network_def)
  note t = network_copy [where net = good_network and name = DYNAMIC_CACHE
      and u = "url icon_request", OF h1 match_static_icon h3]
  have before: "cache_entry (caches static_worker) DYNAMIC_CACHE (url icon_request) = None"
    by (simp add: cache_entry_def static_worker_def CACHE_NAME_def DYNAMIC_CACHE_def)
  have m: "req_method icon_request = ''GET''" by (simp add: icon_request_def)
  have r: "?s' = static_worker\<lparr>fetched := fetched static_worker @ [icon_request],
      caches := put_entry (caches_open (caches static_worker) DYNAMIC_CACHE) DYNAMIC_CACHE
        (url icon_request) ?d\<rparr>"
    by (simp add: origin_icon match_static_icon m fetch_handler_def good_network_def fresh_def
        clone_def cache_put_def snapshot_of_def Let_def)
  have after: "cache_entry (caches ?s') DYNAMIC_CACHE (url icon_request) = Some ?d"
    unfolding r
    by (simp add: cache_entry_def caches_open_def static_worker_def CACHE_NAME_def
        DYNAMIC_CACHE_def)
  from t have "fst (fetch_handler app_origin good_network static_worker icon_request)
      = Responded (Some (fresh ?d))" and "fetched ?s' = fetched static_worker @ [icon_request]"
    by simp_all
  with h1 h3 match_static_icon before after show ?thesis
    by (simp add: fresh_def static_worker_def)
qed

subsection \<open>Network failures\<close>

text \<open>
  C5, as the code has it. The fallback is \<open>caches.match('/index.html')\<close>, which finds
  nothing when no cache holds that entry: on \<open>empty_worker\<close> a document request whose
  fetch fails resolves with \<open>undefined\<close>, not with a cached snapshot.
\<close>

theorem no_cached_index_counterexample:
  "(url_origin (url page_request) = app_origin \<or> str_includes (url page_request) ''unpkg.com'') \<and>
   caches_match (caches empty_worker) page_request = None \<and>
   no_network page_request = None \<and>
   destination page_request = ''document'' \<and>
   fetch_handler app_origin no_network empty_worker page_request
     = (Responded None, \<lparr>caches = [], fetched = [page_request]\<rparr>)"
  by (simp add: origin_page page_fields fetch_handler_def offline_def caches_match_def
      empty_worker_def no_network_def Let_def)

text \<open>
  C5, amended. For a request the handler takes, that no cache answers and whose
  fetch fails: a document request is answered with the snapshot cached for
  \<open>/index.html\<close> when there is one, and any other request is rejected with the
  fetch's error; the fetch is logged and the caches are untouched.
\<close>

theorem network_failure:
  assumes "url_origin (url rq) = loc \<or> str_includes (url rq) ''unpkg.com''"
    and "caches_match (caches s) rq = None" and "net rq = None"
  shows "(destination rq = ''document'' \<and>
            caches_match (caches s) (request_of loc ''/index.html'') = Some d \<longrightarrow>
          fst (fetch_handler loc net s rq) = Responded (Some (fresh d))) \<and>
         (destination rq \<noteq> ''document'' \<longrightarrow>
          fst (fetch_handler loc net s rq) = Rejected TypeError) \<and>
         snd (fetch_handler loc net s rq) = s\<lparr>fetched := fetched s @ [rq]\<rparr>"
  using assms by (auto simp: fetch_handler_def offline_def Let_def)

theorem network_failure_witness:
  "(url_origin (url page_request) = app_origin \<or> str_includes (url page_request) ''unpkg.com'') \<and>
   caches_match (caches static_worker) page_request = None \<and>
   no_network page_request = None \<and>
   destination page_request = ''document'' \<and>
   caches_match (caches static_worker) (request_of app_origin ''/index.html'')
     = Some index_snapshot \<and>
   fst (fetch_handler app_origin no_network static_worker page_request)
     = Responded (Some (fresh index_snapshot)) \<and>
   (url_origin (url icon_request) = app_origin \<or> str_includes (url icon_request) ''unpkg.com'') \<and>
   caches_match (caches static_worker) icon_request = None \<and>
   no_network icon_request = None \<and>
   destination icon_request \<noteq> ''document'' \<and>
   fst (fetch_handler app_origin no_network static_worker icon_request) = Rejected TypeError"
proof -
  have p1: "url_origin (url page_request) = app_origin \<or>
      str_includes (url page_request) ''unpkg.com''"
    by (simp add: origin_page)
  have i1: "url_origin (url icon_request) = app_origin \<or>
      str_includes (url icon_request) ''unpkg.com''"
    by (simp add: origin_icon)
  have n: "no_network page_request = None" "no_network icon_request = None"
    by (simp_all add: no_network_def)
  have d: "destination page_request = ''document''" "destination icon_request \<noteq> ''document''"
    by (simp_all add: page_request_def icon_request_def)
  from network_failure [where net = no_network and d = index_snapshot, OF p1 match_static_page n(1)]
    d(1) match_static_index
  have a: "fst (fetch_handler app_origin no_network static_worker page_request)
      = Responded (Some (fresh index_snapshot))" by simp
  from network_failure [where net = no_network and d = index_snapshot, OF i1 match_static_icon n(2)]
    d(2)
  have b: "fst (fetch_handler app_origin no_network static_worker icon_request)
      = Rejected TypeError" by simp
  from p1 i1 n d a b match_static_page match_static_icon match_static_index
  show ?thesis by simp
qed

subsection \<open>Install\<close>

text \<open>
  C7, as the code has it. With one asset of the manifest unreachable, nothing is
  stored in the static cache and the error is logged, but the \<open>.catch\<close> returns
  normally: the promise given to \<open>event.waitUntil\<close> fulfils, so the install is not
  failed and nothing is reported to the runtime.
\<close>

theorem install_swallows_counterexample:
  "babel_down (request_of app_origin ''https://unpkg.com/@babel/standalone/babel.min.js'') = None \<and>
   settled (fst (install_handler app_origin babel_down empty_worker)) = Inr () \<and>
   console_error (fst (install_handler app_origin babel_down empty_worker)) = Some TypeError \<and>
   caches (snd (install_handler app_origin babel_down empty_worker)) = [(CACHE_NAME, Map.empty)]"
  by (simp add: install_handler_def cache_addAll_def Let_def babel_down_def request_of_def
      resolve_def STATIC_ASSETS_def fetched_ok_def ok_status_def empty_worker_def
      caches_open_def app_origin_def)

text \<open>
  C7, amended. When the fetch of any asset of the manifest fails, the install
  handler stores nothing (the static cache is opened and gets no entry), fetches each
  asset once, does not call \<open>skipWaiting\<close>, and logs the error; the promise given to
  \<open>event.waitUntil\<close> fulfils.
\<close>

theorem install_failure:
  assumes "u \<in> set STATIC_ASSETS" and "net (request_of loc u) = None"
  shows "install_handler loc net s =
           (\<lparr>settled = Inr (), skipWaiting = False, console_error = Some TypeError\<rparr>,
            s\<lparr>caches := caches_open (caches s) CACHE_NAME,
              fetched := fetched s @ map (request_of loc) STATIC_ASSETS\<rparr>)"
proof -
  from assms(2) have "\<not> fetched_ok (net (request_of loc u))"
    by (simp add: fetched_ok_def)
  with assms(1) have
    "\<not> list_all (\<lambda>rq. fetched_ok (net rq)) (map (request_of loc) STATIC_ASSETS)"
    unfolding list_all_iff by auto
  then show ?thesis
    by (simp add: install_handler_def cache_addAll_def Let_def)
qed

theorem install_failure_witness:
  "''/index.html'' \<in> set STATIC_ASSETS \<and>
   no_network (request_of app_origin ''/index.html'') = None \<and>
   install_handler app_origin no_network empty_worker =
     (\<lparr>settled = Inr (), skipWaiting = False, console_error = Some TypeError\<rparr>,
      \<lparr>caches = [(CACHE_NAME, Map.empty)],
       fetched = map (request_of app_origin) STATIC_ASSETS\<rparr>)"
proof -
  have h1: "''/index.html'' \<in> set STATIC_ASSETS" by (simp add: STATIC_ASSETS_def)
  have h2: "no_network (request_of app_origin ''/index.html'') = None"
    by (simp add: no_network_def)
  from install_failure [where net = no_network and s = empty_worker, OF h1 h2] h1 h2
  show ?thesis
    by (simp add: empty_worker_def caches_open_def)
qed

text \<open>
  When every asset is fetched with a successful status, the handler calls
  \<open>skipWaiting\<close> and logs nothing.
\<close>

lemma install_success:
  assumes "list_all (\<lambda>u. fetched_ok (net (request_of loc u))) STATIC_ASSETS"
  shows "fst (install_handler loc net s)
           = \<lparr>settled = Inr (), skipWaiting = True, console_error = None\<rparr>"
proof -
  from assms have "list_all (\<lambda>rq. fetched_ok (net rq)) (map (request_of loc) STATIC_ASSETS)"
    by (simp add: list_all_iff)
  then show ?thesis
    by (simp add: install_handler_def cache_addAll_def Let_def)
qed

end
